theory Spec2Isabelle
  imports Main "HOL-Library.Word"
begin

unbundle bit_operations_syntax

section \<open>Python values used by protocol.py\<close>

text \<open>
  A \<open>bytearray\<close> or \<open>bytes\<close> object is a list of 8-bit words, so every element is in
  \<open>range(256)\<close> by its type. Python integers are unbounded: \<open>int\<close>. Exceptions are values of
  \<open>py_error\<close>; a computation that may raise returns \<open>py_error + 'a\<close> with \<open>Inl\<close> the exception.
  \<open>CorruptedData pos rest\<close> is the \<open>Exception('LogData: corrupted data at pos=..., data=...')\<close>
  that \<open>LogData.update\<close> raises, with the position and the bytes \<open>data[pos:]\<close> of its message.
\<close>

type_synonym byte = "8 word"
type_synonym bytes = "byte list"

datatype py_error = IndexError | ValueError | StructError | CorruptedData int bytes

definition bind_err :: "py_error + 'a \<Rightarrow> ('a \<Rightarrow> py_error + 'b) \<Rightarrow> py_error + 'b" where
  "bind_err m f = (case m of Inl e \<Rightarrow> Inl e | Inr x \<Rightarrow> f x)"

text \<open>Index normalisation of \<open>seq[i]\<close>: a negative index counts from the end.\<close>

definition norm_index :: "nat \<Rightarrow> int \<Rightarrow> int" where
  "norm_index n i = (if i < 0 then i + int n else i)"

text \<open>\<open>buf[i]\<close> as an expression: the element as an integer, or IndexError.\<close>

definition getitem :: "bytes \<Rightarrow> int \<Rightarrow> py_error + int" where
  "getitem b i =
     (let j = norm_index (length b) i
      in if 0 \<le> j \<and> j < int (length b) then Inr (uint (b ! nat j)) else Inl IndexError)"

text \<open>
  \<open>buf[i] = v\<close> on a bytearray: IndexError when the index is out of range, then ValueError
  ("byte must be in range(0, 256)") when the value is not a byte.
\<close>

definition setitem :: "bytes \<Rightarrow> int \<Rightarrow> int \<Rightarrow> py_error + bytes" where
  "setitem b i v =
     (let j = norm_index (length b) i
      in if \<not> (0 \<le> j \<and> j < int (length b)) then Inl IndexError
         else if \<not> (0 \<le> v \<and> v < 256) then Inl ValueError
         else Inr (b[nat j := word_of_int v]))"

text \<open>\<open>bytearray.append(v)\<close>: ValueError when the value is not a byte.\<close>

definition bytearray_append :: "bytes \<Rightarrow> int \<Rightarrow> py_error + bytes" where
  "bytearray_append b v =
     (if 0 \<le> v \<and> v < 256 then Inr (b @ [word_of_int v]) else Inl ValueError)"

text \<open>\<open>bytearray([v0, v1, ...])\<close>: every value has to be a byte.\<close>

fun bytearray_of :: "int list \<Rightarrow> py_error + bytes" where
  "bytearray_of [] = Inr []"
| "bytearray_of (v # vs) =
     (if 0 \<le> v \<and> v < 256
      then bind_err (bytearray_of vs) (\<lambda>r. Inr (word_of_int v # r))
      else Inl ValueError)"

text \<open>
  A slice bound: negative bounds count from the end, then the bound is clamped to
  \<open>[0, len]\<close>. Slicing never raises.
\<close>

definition slice_bound :: "nat \<Rightarrow> int \<Rightarrow> nat" where
  "slice_bound n i =
     (let j = norm_index n i in if j < 0 then 0 else if int n < j then n else nat j)"

definition py_slice :: "'a list \<Rightarrow> int \<Rightarrow> int \<Rightarrow> 'a list" where
  "py_slice xs a b = drop (slice_bound (length xs) a) (take (slice_bound (length xs) b) xs)"

definition py_slice_from :: "'a list \<Rightarrow> int \<Rightarrow> 'a list" where
  "py_slice_from xs a = drop (slice_bound (length xs) a) xs"

section \<open>utils: le16 and int16\<close>

text \<open>
  Modelled from the spec: \<open>le16\<close> of \<open>utils\<close> (imported by protocol.py, not part of the
  sources at hand). The spec has \<open>fixup\<close> write the length and the sequence number
  "little-endian" into two bytes: the low byte first, then the next eight bits.
\<close>

definition le16 :: "int \<Rightarrow> int \<times> int" where
  "le16 val = (val AND 0xff, drop_bit 8 val AND 0xff)"

text \<open>
  Modelled from the spec: \<open>int16\<close> of \<open>utils\<close> (imported by protocol.py, not part of the
  sources at hand). The spec calls the values the flight-status decoder reads with it
  "little-endian signed 16-bit values": the first argument is the low byte, the second the
  high byte, and the 16-bit pattern is read as two's complement.
\<close>

definition int16 :: "int \<Rightarrow> int \<Rightarrow> int" where
  "int16 val0 val1 =
     (let u = (val0 AND 0xff) + 256 * (val1 AND 0xff)
      in if u < 32768 then u else u - 65536)"

section \<open>Packet\<close>

definition START_OF_PACKET :: int where
  "START_OF_PACKET = 0xcc"

record packet =
  buf :: bytes

text \<open>
  The argument of \<open>Packet.__init__\<close>: a \<open>str\<close> (its code points), a \<open>bytearray\<close>/\<open>bytes\<close>
  object, or anything else, which the constructor uses as an integer command id.
\<close>

datatype cmd_arg = CmdStr "int list" | CmdBytes bytes | CmdInt int

fun append_ords :: "bytes \<Rightarrow> int list \<Rightarrow> py_error + bytes" where
  "append_ords b [] = Inr b"
| "append_ords b (c # cs) = bind_err (bytearray_append b c) (\<lambda>b'. append_ords b' cs)"

fun Packet_init :: "cmd_arg \<Rightarrow> int \<Rightarrow> py_error + packet" where
  "Packet_init (CmdStr cs) pkt_type =
     bind_err (append_ords [] cs) (\<lambda>b. Inr \<lparr>buf = b\<rparr>)"
| "Packet_init (CmdBytes bs) pkt_type = Inr \<lparr>buf = bs\<rparr>"
| "Packet_init (CmdInt cmd) pkt_type =
     bind_err
       (bytearray_of
          [START_OF_PACKET, 0, 0, 0, pkt_type, cmd AND 0xff, drop_bit 8 cmd AND 0xff, 0, 0])
       (\<lambda>b. Inr \<lparr>buf = b\<rparr>)"

definition get_buffer :: "packet \<Rightarrow> bytes" where
  "get_buffer p = buf p"

definition get_data :: "packet \<Rightarrow> bytes" where
  "get_data p = py_slice (buf p) 9 (int (length (buf p)) - 2)"

definition add_byte :: "packet \<Rightarrow> int \<Rightarrow> py_error + packet" where
  "add_byte p val = bind_err (bytearray_append (buf p) (val AND 0xff)) (\<lambda>b. Inr (p\<lparr>buf := b\<rparr>))"

definition add_int16 :: "packet \<Rightarrow> int \<Rightarrow> py_error + packet" where
  "add_int16 p val = bind_err (add_byte p val) (\<lambda>p1. add_byte p1 (drop_bit 8 val))"

text \<open>
  \<open>fixup\<close> works on \<open>buf = self.get_buffer()\<close>, the packet's own bytearray, so every
  assignment is a write to the packet; the last line appends to the same object. The two
  checksum functions of the module \<open>crc\<close> are parameters: \<open>crc8\<close> gives a byte, \<open>crc16\<close> a
  16-bit value. When a statement raises, the call ends with that exception.
\<close>

definition fixup ::
  "(bytes \<Rightarrow> 8 word) \<Rightarrow> (bytes \<Rightarrow> 16 word) \<Rightarrow> packet \<Rightarrow> int \<Rightarrow> py_error + packet" where
  "fixup crc8 crc16 p seq_num =
     bind_err (getitem (get_buffer p) 0) (\<lambda>b0.
       if b0 = START_OF_PACKET then
         bind_err (setitem (get_buffer p) 1 (fst (le16 (int (length (get_buffer p)) + 2)))) (\<lambda>b1.
         bind_err (setitem b1 2 (snd (le16 (int (length (get_buffer p)) + 2)))) (\<lambda>b2.
         bind_err (getitem b2 1) (\<lambda>v1.
         bind_err (setitem b2 1 (push_bit 3 v1)) (\<lambda>b3.
         bind_err (setitem b3 3 (uint (crc8 (py_slice b3 0 3)))) (\<lambda>b4.
         bind_err (setitem b4 7 (fst (le16 seq_num))) (\<lambda>b5.
         bind_err (setitem b5 8 (snd (le16 seq_num))) (\<lambda>b6.
         add_int16 (p\<lparr>buf := b6\<rparr>) (uint (crc16 b6)))))))))
       else Inr p)"

text \<open>The \<open>datetime\<close> attributes that \<open>add_time\<close> reads.\<close>

record datetime =
  year :: int
  month :: int
  day :: int
  hour :: int
  minute :: int
  second :: int
  microsecond :: int

text \<open>\<open>int(time.microsecond/1000)\<close>: the quotient, truncated towards zero.\<close>

definition millis :: "datetime \<Rightarrow> int" where
  "millis t =
     (if 0 \<le> microsecond t then microsecond t div 1000 else - ((- microsecond t) div 1000))"

definition add_time :: "packet \<Rightarrow> datetime \<Rightarrow> py_error + packet" where
  "add_time p t =
     bind_err (add_int16 p (hour t)) (\<lambda>p1.
     bind_err (add_int16 p1 (minute t)) (\<lambda>p2.
     bind_err (add_int16 p2 (second t)) (\<lambda>p3.
     bind_err (add_int16 p3 (millis t AND 0xff)) (\<lambda>p4.
     add_int16 p4 (drop_bit 8 (millis t) AND 0xff)))))"

text \<open>A caller that appends payload values one at a time with \<open>add_byte\<close>.\<close>

fun add_bytes :: "packet \<Rightarrow> int list \<Rightarrow> py_error + packet" where
  "add_bytes p [] = Inr p"
| "add_bytes p (v # vs) = bind_err (add_byte p v) (\<lambda>p'. add_bytes p' vs)"

section \<open>FlightData\<close>

text \<open>
  The attributes of a \<open>FlightData\<close> object, in the order in which \<open>__init__\<close> sets them
  to 0.
\<close>

record flight_data =
  battery_low :: int
  battery_lower :: int
  battery_percentage :: int
  battery_state :: int
  camera_state :: int
  down_visual_state :: int
  drone_battery_left :: int
  drone_fly_time_left :: int
  drone_hover :: int
  em_open :: int
  em_sky :: int
  em_ground :: int
  east_speed :: int
  electrical_machinery_state :: int
  factory_mode :: int
  fly_mode :: int
  fly_speed :: int
  fly_time :: int
  front_in :: int
  front_lsc :: int
  front_out :: int
  gravity_state :: int
  vertical_speed :: int
  height :: int
  imu_calibration_state :: int
  imu_state :: int
  light_strength :: int
  north_speed :: int
  outage_recording :: int
  power_state :: int
  pressure_state :: int
  smart_video_exit_mode :: int
  temperature_height :: int
  throw_fly_timer :: int
  wifi_disturb :: int
  wifi_strength :: int
  wind_state :: int

definition flight_data_defaults :: flight_data where
  "flight_data_defaults =
     \<lparr>battery_low = 0,
      battery_lower = 0,
      battery_percentage = 0,
      battery_state = 0,
      camera_state = 0,
      down_visual_state = 0,
      drone_battery_left = 0,
      drone_fly_time_left = 0,
      drone_hover = 0,
      em_open = 0,
      em_sky = 0,
      em_ground = 0,
      east_speed = 0,
      electrical_machinery_state = 0,
      factory_mode = 0,
      fly_mode = 0,
      fly_speed = 0,
      fly_time = 0,
      front_in = 0,
      front_lsc = 0,
      front_out = 0,
      gravity_state = 0,
      vertical_speed = 0,
      height = 0,
      imu_calibration_state = 0,
      imu_state = 0,
      light_strength = 0,
      north_speed = 0,
      outage_recording = 0,
      power_state = 0,
      pressure_state = 0,
      smart_video_exit_mode = 0,
      temperature_height = 0,
      throw_fly_timer = 0,
      wifi_disturb = 0,
      wifi_strength = 0,
      wind_state = 0\<rparr>"

text \<open>
  \<open>data[i]\<close> for a fixed index below 24, read after the guard \<open>len(data) < 24\<close> has let the
  constructor go on: the index is in range, so the read cannot raise.
\<close>

definition byte_at :: "bytes \<Rightarrow> nat \<Rightarrow> int" where
  "byte_at data i = uint (data ! i)"

text \<open>
  \<open>FlightData.__init__\<close>: all attributes are set to 0; a payload shorter than 24 bytes
  returns there, a longer one overwrites the decoded attributes. No statement of the
  constructor can raise, so the result is the object itself.
\<close>

definition FlightData :: "bytes \<Rightarrow> flight_data" where
  "FlightData data =
     (if length data < 24 then flight_data_defaults
      else flight_data_defaults
        \<lparr>height := int16 (byte_at data 0) (byte_at data 1),
          north_speed := int16 (byte_at data 2) (byte_at data 3),
          east_speed := int16 (byte_at data 4) (byte_at data 5),
          vertical_speed := int16 (byte_at data 6) (byte_at data 7),
          fly_time := int16 (byte_at data 8) (byte_at data 9),
          imu_state := drop_bit 0 (byte_at data 10) AND 0x1,
          pressure_state := drop_bit 1 (byte_at data 10) AND 0x1,
          down_visual_state := drop_bit 2 (byte_at data 10) AND 0x1,
          power_state := drop_bit 3 (byte_at data 10) AND 0x1,
          battery_state := drop_bit 4 (byte_at data 10) AND 0x1,
          gravity_state := drop_bit 5 (byte_at data 10) AND 0x1,
          wind_state := drop_bit 7 (byte_at data 10) AND 0x1,
          imu_calibration_state := byte_at data 11,
          battery_percentage := byte_at data 12,
          drone_fly_time_left := int16 (byte_at data 13) (byte_at data 14),
          drone_battery_left := int16 (byte_at data 15) (byte_at data 16),
          em_sky := drop_bit 0 (byte_at data 17) AND 0x1,
          em_ground := drop_bit 1 (byte_at data 17) AND 0x1,
          em_open := drop_bit 2 (byte_at data 17) AND 0x1,
          drone_hover := drop_bit 3 (byte_at data 17) AND 0x1,
          outage_recording := drop_bit 4 (byte_at data 17) AND 0x1,
          battery_low := drop_bit 5 (byte_at data 17) AND 0x1,
          battery_lower := drop_bit 6 (byte_at data 17) AND 0x1,
          factory_mode := drop_bit 7 (byte_at data 17) AND 0x1,
          fly_mode := byte_at data 18,
          throw_fly_timer := byte_at data 19,
          camera_state := byte_at data 20,
          electrical_machinery_state := byte_at data 21,
          front_in := drop_bit 0 (byte_at data 22) AND 0x1,
          front_out := drop_bit 1 (byte_at data 22) AND 0x1,
          front_lsc := drop_bit 2 (byte_at data 22) AND 0x1,
          temperature_height := drop_bit 0 (byte_at data 23) AND 0x1\<rparr>)"

section \<open>struct\<close>

text \<open>
  \<open>struct.unpack_from(fmt, data, offset)\<close> reads the \<open>sz\<close> bytes of the format at the offset.
  A negative offset counts from the end of the buffer; \<open>struct.error\<close> is raised unless the
  whole window lies inside the buffer.
\<close>

definition unpack_from :: "nat \<Rightarrow> bytes \<Rightarrow> int \<Rightarrow> py_error + bytes" where
  "unpack_from sz data offset =
     (let j = norm_index (length data) offset
      in if 0 \<le> j \<and> j + int sz \<le> int (length data)
         then Inr (take sz (drop (nat j) data)) else Inl StructError)"

text \<open>The formats \<open>'B'\<close>, \<open>'<H'\<close> and \<open>'<h'\<close> on the bytes of their window.\<close>

definition struct_B :: "bytes \<Rightarrow> int" where
  "struct_B bs = uint (bs ! 0)"

definition struct_H :: "bytes \<Rightarrow> int" where
  "struct_H bs = uint (bs ! 0) + 256 * uint (bs ! 1)"

definition struct_h :: "bytes \<Rightarrow> int" where
  "struct_h bs = (if struct_H bs < 32768 then struct_H bs else struct_H bs - 65536)"

text \<open>
  Floating-point attributes are kept symbolic: the literal \<open>0.0\<close>, the value of the format
  \<open>'f'\<close> on four bytes in native byte order, and the quotient of an integer by \<open>100.0\<close>.
\<close>

datatype pyfloat = FloatZero | FloatOfBytes bytes | IntDiv100 int

section \<open>LogNewMvoFeedback and LogImuAtti\<close>

record LogNewMvoFeedback =
  mvo_count :: int
  vel_x :: pyfloat
  vel_y :: pyfloat
  vel_z :: pyfloat
  pos_x :: pyfloat
  pos_y :: pyfloat
  pos_z :: pyfloat

text \<open>\<open>LogNewMvoFeedback(log)\<close>, as \<open>LogData.__init__\<close> calls it: no data, so no update.\<close>

definition LogNewMvoFeedback_init :: LogNewMvoFeedback where
  "LogNewMvoFeedback_init =
     \<lparr>mvo_count = 0, vel_x = FloatZero, vel_y = FloatZero, vel_z = FloatZero,
      pos_x = FloatZero, pos_y = FloatZero, pos_z = FloatZero\<rparr>"

text \<open>
  The sub-decoders assign attribute by attribute, so an exception leaves the assignments
  made before it: the result is the object after the call, with the exception if one was
  raised.
\<close>

definition LogNewMvoFeedback_update ::
  "LogNewMvoFeedback \<Rightarrow> bytes \<Rightarrow> int \<Rightarrow> LogNewMvoFeedback \<times> py_error option" where
  "LogNewMvoFeedback_update m data cnt =
     (let m1 = m\<lparr>mvo_count := cnt\<rparr>
      in case unpack_from 6 data 2 of
           Inl e \<Rightarrow> (m1, Some e)
         | Inr v \<Rightarrow>
             (let m2 = m1\<lparr>vel_x := IntDiv100 (struct_h (take 2 v)),
                         vel_y := IntDiv100 (struct_h (take 2 (drop 2 v))),
                         vel_z := IntDiv100 (struct_h (take 2 (drop 4 v)))\<rparr>
              in case unpack_from 12 data 8 of
                   Inl e \<Rightarrow> (m2, Some e)
                 | Inr f \<Rightarrow>
                     (m2\<lparr>pos_x := FloatOfBytes (take 4 f),
                         pos_y := FloatOfBytes (take 4 (drop 4 f)),
                         pos_z := FloatOfBytes (take 4 (drop 8 f))\<rparr>, None)))"

record LogImuAtti =
  imu_count :: int
  acc_x :: pyfloat
  acc_y :: pyfloat
  acc_z :: pyfloat
  gyro_x :: pyfloat
  gyro_y :: pyfloat
  gyro_z :: pyfloat
  q0 :: pyfloat
  q1 :: pyfloat
  q2 :: pyfloat
  q3 :: pyfloat
  vg_x :: pyfloat
  vg_y :: pyfloat
  vg_z :: pyfloat

definition LogImuAtti_init :: LogImuAtti where
  "LogImuAtti_init =
     \<lparr>imu_count = 0, acc_x = FloatZero, acc_y = FloatZero, acc_z = FloatZero,
      gyro_x = FloatZero, gyro_y = FloatZero, gyro_z = FloatZero,
      q0 = FloatZero, q1 = FloatZero, q2 = FloatZero, q3 = FloatZero,
      vg_x = FloatZero, vg_y = FloatZero, vg_z = FloatZero\<rparr>"

definition LogImuAtti_update ::
  "LogImuAtti \<Rightarrow> bytes \<Rightarrow> int \<Rightarrow> LogImuAtti \<times> py_error option" where
  "LogImuAtti_update a data cnt =
     (let a1 = a\<lparr>imu_count := cnt\<rparr>
      in case unpack_from 12 data 20 of
           Inl e \<Rightarrow> (a1, Some e)
         | Inr f1 \<Rightarrow>
       (let a2 = a1\<lparr>acc_x := FloatOfBytes (take 4 f1),
                   acc_y := FloatOfBytes (take 4 (drop 4 f1)),
                   acc_z := FloatOfBytes (take 4 (drop 8 f1))\<rparr>
        in case unpack_from 12 data 32 of
             Inl e \<Rightarrow> (a2, Some e)
           | Inr f2 \<Rightarrow>
         (let a3 = a2\<lparr>gyro_x := FloatOfBytes (take 4 f2),
                     gyro_y := FloatOfBytes (take 4 (drop 4 f2)),
                     gyro_z := FloatOfBytes (take 4 (drop 8 f2))\<rparr>
          in case unpack_from 16 data 48 of
               Inl e \<Rightarrow> (a3, Some e)
             | Inr f3 \<Rightarrow>
           (let a4 = a3\<lparr>q0 := FloatOfBytes (take 4 f3),
                       q1 := FloatOfBytes (take 4 (drop 4 f3)),
                       q2 := FloatOfBytes (take 4 (drop 8 f3)),
                       q3 := FloatOfBytes (take 4 (drop 12 f3))\<rparr>
            in case unpack_from 12 data 76 of
                 Inl e \<Rightarrow> (a4, Some e)
               | Inr f4 \<Rightarrow>
                   (a4\<lparr>vg_x := FloatOfBytes (take 4 f4),
                       vg_y := FloatOfBytes (take 4 (drop 4 f4)),
                       vg_z := FloatOfBytes (take 4 (drop 8 f4))\<rparr>, None)))))"

section \<open>LogData\<close>

definition ID_NEW_MVO_FEEDBACK :: int where
  "ID_NEW_MVO_FEEDBACK = 29"

definition ID_IMU_ATTI :: int where
  "ID_IMU_ATTI = 2048"

text \<open>
  The instance attributes of a \<open>LogData\<close> object. The logger \<open>self.log\<close> is outside the
  module; what it is told at level info is recorded in the process state below.
\<close>

record LogData =
  count :: int
  mvo :: LogNewMvoFeedback
  imu :: LogImuAtti

text \<open>
  The part of the Python process that \<open>LogData\<close> touches. \<open>unknowns\<close> is the list bound to the
  class attribute \<open>LogData.unknowns\<close>: no method assigns \<open>self.unknowns\<close>, so
  \<open>self.unknowns\<close> is that one list for every instance, and \<open>append\<close> changes it in place.
  \<open>objects\<close> holds the \<open>LogData\<close> instances; a reference to an instance is its index.
  \<open>infos\<close> lists the calls of \<open>log.info\<close> made by \<open>update\<close>, oldest first: the instance whose
  logger was called, the record id and the payload length \<open>length-12\<close> of the message.
\<close>

record process =
  unknowns :: "int list"
  objects :: "LogData list"
  infos :: "(nat \<times> int \<times> int) list"

definition obj :: "process \<Rightarrow> nat \<Rightarrow> LogData" where
  "obj w self = objects w ! self"

definition put_obj :: "process \<Rightarrow> nat \<Rightarrow> LogData \<Rightarrow> process" where
  "put_obj w self d = w\<lparr>objects := (objects w)[self := d]\<rparr>"

text \<open>
  The head of the loop body of \<open>LogData.update\<close>, up to the payload: the sync byte, the
  record length, the checksum byte (read and not used), the id, the xor key, and the slice
  \<open>data[pos+10:pos+10+length-12]\<close> with every byte xor-ed with the key. Both operands of
  \<open>x ^ xorval\<close> are bytes, so is the result, and \<open>bytearray(...)\<close> cannot raise.
\<close>

definition read_record :: "bytes \<Rightarrow> int \<Rightarrow> py_error + (int \<times> int \<times> bytes)" where
  "read_record data pos =
     bind_err (unpack_from 1 data (pos + 0)) (\<lambda>s.
       if struct_B s \<noteq> 0x55 then Inl (CorruptedData pos (py_slice_from data pos))
       else
         bind_err (unpack_from 2 data (pos + 1)) (\<lambda>l.
         bind_err (getitem data (pos + 3)) (\<lambda>checksum.
         bind_err (unpack_from 2 data (pos + 4)) (\<lambda>i.
         bind_err (getitem data (pos + 6)) (\<lambda>xorval.
           Inr (struct_h l, struct_H i,
                map (\<lambda>x. x XOR word_of_int xorval)
                  (py_slice data (pos + 10) (pos + 10 + struct_h l - 12))))))))"

text \<open>The dispatch on the record id, the rest of the loop body before \<open>pos += length\<close>.\<close>

definition dispatch ::
  "process \<Rightarrow> nat \<Rightarrow> int \<Rightarrow> int \<Rightarrow> bytes \<Rightarrow> process \<times> py_error option" where
  "dispatch w self ident len payload =
     (if ident = ID_NEW_MVO_FEEDBACK then
        (case LogNewMvoFeedback_update (mvo (obj w self)) payload (count (obj w self)) of
           (m, r) \<Rightarrow> (put_obj w self ((obj w self)\<lparr>mvo := m\<rparr>), r))
      else if ident = ID_IMU_ATTI then
        (case LogImuAtti_update (imu (obj w self)) payload (count (obj w self)) of
           (a, r) \<Rightarrow> (put_obj w self ((obj w self)\<lparr>imu := a\<rparr>), r))
      else if ident \<notin> set (unknowns w) then
        (w\<lparr>infos := infos w @ [(self, ident, len - 12)],
           unknowns := unknowns w @ [ident]\<rparr>, None)
      else (w, None))"

text \<open>
  The \<open>while\<close> loop of \<open>update\<close> from position \<open>pos\<close>. It ends with the process state and
  either the exception raised in the body or the position at which the loop condition
  failed. A run of the loop that never ends has the value \<open>None\<close>.
\<close>

partial_function (option) scan ::
  "process \<Rightarrow> nat \<Rightarrow> bytes \<Rightarrow> int \<Rightarrow> (process \<times> (py_error + int)) option" where
  "scan w self data pos =
     (if pos < int (length data) - 2 then
        (case read_record data pos of
           Inl e \<Rightarrow> Some (w, Inl e)
         | Inr (len, ident, payload) \<Rightarrow>
             (case dispatch w self ident len payload of
                (w', Some e) \<Rightarrow> Some (w', Inl e)
              | (w', None) \<Rightarrow> scan w' self data (pos + len)))
      else Some (w, Inr pos))"

declare scan.simps [code]

text \<open>\<open>self.count += 1\<close>, the statement before the loop.\<close>

definition enter :: "process \<Rightarrow> nat \<Rightarrow> process" where
  "enter w self = put_obj w self ((obj w self)\<lparr>count := count (obj w self) + 1\<rparr>)"

text \<open>
  \<open>LogData.update(data)\<close> on a bytes object (in Python 2 also a \<open>str\<close>, or a \<open>bytearray\<close>
  that \<open>str()\<close> turns into one): the process state after the call and the exception, if the
  call raised one; \<open>None\<close> when the call does not return.
\<close>

definition update :: "process \<Rightarrow> nat \<Rightarrow> bytes \<Rightarrow> (process \<times> py_error option) option" where
  "update w self data =
     (case scan (enter w self) self data 0 of
        None \<Rightarrow> None
      | Some (w', Inl e) \<Rightarrow> Some (w', Some e)
      | Some (w', Inr pos) \<Rightarrow>
          if pos \<noteq> int (length data) - 2
          then Some (w', Some (CorruptedData pos (py_slice_from data pos)))
          else Some (w', None))"

text \<open>
  \<open>LogData(log, data)\<close>: the new instance gets the next free reference; \<open>if data:\<close> skips the
  update for \<open>None\<close> and for an empty buffer. The result is the reference, or the exception
  of the update.
\<close>

definition LogData_init :: "process \<Rightarrow> bytes option \<Rightarrow> (process \<times> (py_error + nat)) option" where
  "LogData_init w data =
     (let self = length (objects w);
          w1 = w\<lparr>objects := objects w @
                 [\<lparr>count = 0, mvo = LogNewMvoFeedback_init, imu = LogImuAtti_init\<rparr>]\<rparr>
      in case data of
           None \<Rightarrow> Some (w1, Inr self)
         | Some d \<Rightarrow>
             if d = [] then Some (w1, Inr self)
             else (case update w1 self d of
                     None \<Rightarrow> None
                   | Some (w2, None) \<Rightarrow> Some (w2, Inr self)
                   | Some (w2, Some e) \<Rightarrow> Some (w2, Inl e)))"

text \<open>
  A client of the module: it creates instances and calls \<open>update\<close> on instances it has
  created, going on after an exception as \<open>tello.py\<close> does. \<open>None\<close> when a call does not return.
\<close>

datatype call = New "bytes option" | Update nat bytes

fun run :: "process \<Rightarrow> call list \<Rightarrow> process option" where
  "run w [] = Some w"
| "run w (New d # cs) =
     (case LogData_init w d of None \<Rightarrow> None | Some (w', r) \<Rightarrow> run w' cs)"
| "run w (Update self d # cs) =
     (if self < length (objects w)
      then (case update w self d of None \<Rightarrow> None | Some (w', r) \<Rightarrow> run w' cs)
      else run w cs)"


text \<open>The number of \<open>log.info\<close> messages about a record id.\<close>

definition reports :: "int \<Rightarrow> process \<Rightarrow> nat" where
  "reports ident w = length (filter (\<lambda>m. fst (snd m) = ident) (infos w))"

text \<open>Two stand-ins for the checksum functions of \<open>crc\<close>, for concrete runs.\<close>

definition xor8 :: "bytes \<Rightarrow> 8 word" where
  "xor8 bs = fold (XOR) bs 0x5a"

definition sum16 :: "bytes \<Rightarrow> 16 word" where
  "sum16 bs = fold (\<lambda>b acc. acc * 31 + ucast b) bs 0x3692"


text \<open>
  How the bookkeeping of unknown ids can differ between a process state \<open>w\<close> and a later
  one \<open>w'\<close>: the list only grows, at most one message about \<open>ident\<close> is added, none when
  \<open>ident\<close> is in the list already, and a message added puts \<open>ident\<close> in the list.
\<close>

definition reported :: "int \<Rightarrow> process \<Rightarrow> process \<Rightarrow> bool" where
  "reported ident w w' \<longleftrightarrow>
     set (unknowns w) \<subseteq> set (unknowns w')
     \<and> reports ident w \<le> reports ident w'
     \<and> reports ident w' \<le> reports ident w + (if ident \<in> set (unknowns w) then 0 else 1)
     \<and> (reports ident w < reports ident w' \<longrightarrow> ident \<in> set (unknowns w'))"

section \<open>Sample inputs\<close>

text \<open>A \<open>LogData\<close> instance as the constructor leaves it when it is given no data.\<close>

definition fresh :: LogData where
  "fresh = \<lparr>count = 0, mvo = LogNewMvoFeedback_init, imu = LogImuAtti_init\<rparr>"

text \<open>
  A telemetry stream of one record with id 7, record length 12 and an empty payload,
  followed by two trailing bytes; and the same stream with record length 13.
\<close>

definition unk :: bytes where
  "unk = [0x55, 12, 0, 0x77, 7, 0, 0xaa, 1, 2, 3, 0xee, 0xef, 0x10, 0x20]"

definition long :: bytes where
  "long = [0x55, 13, 0, 0x77, 7, 0, 0xaa, 1, 2, 3, 0xee, 0xef, 0x10, 0x20]"


text \<open>The 24-byte status payload of the spec's example.\<close>

definition status_payload :: bytes where
  "status_payload =
     [0x0A, 0x00, 0x05, 0x00, 0x00, 0x00, 0x00, 0x00, 0x64, 0x00, 0x11, 0x05, 0x32,
      0x00, 0x00, 0x00, 0x00, 0x05, 0x02, 0x03, 0x07, 0x01, 0x03, 0x01]"

section \<open>Properties\<close>

subsection \<open>Packet: appending and framing\<close>

lemma and_ff_mod: "(v::int) AND 0xff = v mod 256"
proof -
  have "v AND 0xff = take_bit 8 v" by (simp add: take_bit_eq_mask mask_eq_exp_minus_1)
  then show ?thesis by (simp add: take_bit_eq_mod)
qed

lemma and_ff_range: "0 \<le> (v::int) AND 0xff \<and> v AND 0xff < 256"
  by (simp add: and_ff_mod)

lemma add_byte_eq: "add_byte p v = Inr (p\<lparr>buf := buf p @ [word_of_int (v AND 0xff)]\<rparr>)"
  using and_ff_range [of v] by (simp add: add_byte_def bytearray_append_def bind_err_def)

lemma add_int16_eq:
  "add_int16 p v =
     Inr (p\<lparr>buf := buf p @ [word_of_int (v AND 0xff), word_of_int (drop_bit 8 v AND 0xff)]\<rparr>)"
  by (simp add: add_int16_def add_byte_eq bind_err_def)

lemma add_bytes_eq:
  "add_bytes p vs = Inr (p\<lparr>buf := buf p @ map (\<lambda>v. word_of_int (v AND 0xff)) vs\<rparr>)"
  by (induction vs arbitrary: p) (simp_all add: add_byte_eq bind_err_def)

lemma add_time_eq:
  "add_time p t =
     Inr (p\<lparr>buf := buf p @
        [word_of_int (hour t AND 0xff), word_of_int (drop_bit 8 (hour t) AND 0xff),
         word_of_int (minute t AND 0xff), word_of_int (drop_bit 8 (minute t) AND 0xff),
         word_of_int (second t AND 0xff), word_of_int (drop_bit 8 (second t) AND 0xff),
         word_of_int (millis t AND 0xff), 0,
         word_of_int (drop_bit 8 (millis t) AND 0xff), 0]\<rparr>)"
proof -
  have z: "drop_bit 8 ((x::int) AND 0xff) = 0" for x
    using and_ff_range [of x] by (simp add: drop_bit_eq_div)
  have i: "((x::int) AND 0xff) AND 0xff = x AND 0xff" for x
    by (simp add: and.assoc)
  show ?thesis
    by (simp add: add_time_def add_int16_eq bind_err_def z i)
qed

lemma Packet_init_int:
  "0 \<le> pkt_type \<Longrightarrow> pkt_type < 256 \<Longrightarrow>
   Packet_init (CmdInt cmd) pkt_type =
     Inr \<lparr>buf = [0xcc, 0, 0, 0, word_of_int pkt_type, word_of_int (cmd AND 0xff),
                 word_of_int (drop_bit 8 cmd AND 0xff), 0, 0]\<rparr>"
  using and_ff_range [of cmd] and_ff_range [of "drop_bit 8 cmd"]
  by (simp add: bind_err_def START_OF_PACKET_def)

lemma bind_err_Inr: "bind_err m f = Inr y \<longleftrightarrow> (\<exists>x. m = Inr x \<and> f x = Inr y)"
  by (cases m) (simp_all add: bind_err_def)

lemma bind_err_InrE:
  assumes "bind_err m f = Inr y"
  obtains x where "m = Inr x" and "f x = Inr y"
  using assms by (auto simp: bind_err_Inr)

lemma setitem_Inr:
  "0 \<le> i \<Longrightarrow> setitem b i v = Inr b' \<longleftrightarrow>
     (nat i < length b \<and> 0 \<le> v \<and> v < 256 \<and> b' = b[nat i := word_of_int v])"
  by (auto simp: setitem_def norm_index_def Let_def)

lemma getitem_Inr:
  "0 \<le> i \<Longrightarrow> getitem b i = Inr v \<longleftrightarrow> (nat i < length b \<and> v = uint (b ! nat i))"
  by (auto simp: getitem_def norm_index_def Let_def)

lemma fixup_steps:
  assumes ok: "fixup crc8 crc16 p seq_num = Inr p'"
    and ne: "buf p \<noteq> []" and sync: "uint (buf p ! 0) = START_OF_PACKET"
  obtains b1 b2 v1 b3 b4 b5 b6 where
    "setitem (buf p) 1 (fst (le16 (int (length (buf p)) + 2))) = Inr b1" and
    "setitem b1 2 (snd (le16 (int (length (buf p)) + 2))) = Inr b2" and
    "getitem b2 1 = Inr v1" and
    "setitem b2 1 (push_bit 3 v1) = Inr b3" and
    "setitem b3 3 (uint (crc8 (py_slice b3 0 3))) = Inr b4" and
    "setitem b4 7 (fst (le16 seq_num)) = Inr b5" and
    "setitem b5 8 (snd (le16 seq_num)) = Inr b6" and
    "add_int16 (p\<lparr>buf := b6\<rparr>) (uint (crc16 b6)) = Inr p'"
proof -
  have g0: "getitem (buf p) 0 = Inr START_OF_PACKET"
    using ne sync by (simp add: getitem_Inr)
  from ok have "bind_err (setitem (buf p) 1 (fst (le16 (int (length (buf p)) + 2)))) (\<lambda>b1.
         bind_err (setitem b1 2 (snd (le16 (int (length (buf p)) + 2)))) (\<lambda>b2.
         bind_err (getitem b2 1) (\<lambda>v1.
         bind_err (setitem b2 1 (push_bit 3 v1)) (\<lambda>b3.
         bind_err (setitem b3 3 (uint (crc8 (py_slice b3 0 3)))) (\<lambda>b4.
         bind_err (setitem b4 7 (fst (le16 seq_num))) (\<lambda>b5.
         bind_err (setitem b5 8 (snd (le16 seq_num))) (\<lambda>b6.
         add_int16 (p\<lparr>buf := b6\<rparr>) (uint (crc16 b6))))))))) = Inr p'"
    unfolding fixup_def get_buffer_def g0 by (simp add: bind_err_def)
  then show ?thesis
    by (elim bind_err_InrE) (rule that)
qed

lemma setitem_len: "setitem b i v = Inr b' \<Longrightarrow> length b' = length b"
  by (auto simp: setitem_def Let_def split: if_splits)

lemma setitem_upd:
  "setitem b i v = Inr b' \<Longrightarrow> 0 \<le> i \<Longrightarrow> nat i < length b \<and> b' = b[nat i := word_of_int v]"
  by (auto simp: setitem_def norm_index_def Let_def split: if_splits)

lemma py_slice_0_3: "3 \<le> length b \<Longrightarrow> py_slice b 0 3 = take 3 b"
  by (simp add: py_slice_def slice_bound_def norm_index_def Let_def)

lemma le16_uint16:
  "uint (word_of_int (uint (w::16 word) AND 0xff) :: byte)
     + 256 * uint (word_of_int (drop_bit 8 (uint w) AND 0xff) :: byte) = uint w"
proof -
  have "uint w < 65536" using uint_bounded [of w] by simp
  moreover have "0 \<le> uint w" by simp
  ultimately have "uint w div 256 < 256" by simp
  then have "uint w div 256 mod 256 = uint w div 256"
    by (simp add: pos_imp_zdiv_nonneg_iff)
  then show ?thesis
    by (simp add: and_ff_mod drop_bit_eq_div uint_word_of_int take_bit_eq_mod)
qed

lemma fixup_sync:
  assumes ok: "fixup crc8 crc16 p seq_num = Inr p'"
    and ne: "buf p \<noteq> []" and sync: "uint (buf p ! 0) = START_OF_PACKET"
  shows "\<exists>B. length B = length (buf p) \<and> 9 \<le> length B \<and> B ! 0 = buf p ! 0
           \<and> B ! 3 = crc8 (take 3 B)
           \<and> drop 9 B = drop 9 (buf p)
           \<and> buf p' = B @ [word_of_int (uint (crc16 B) AND 0xff),
                           word_of_int (drop_bit 8 (uint (crc16 B)) AND 0xff)]"
proof -
  from fixup_steps [OF ok ne sync] obtain b1 b2 v1 b3 b4 b5 b6 where
    s1: "setitem (buf p) 1 (fst (le16 (int (length (buf p)) + 2))) = Inr b1" and
    s2: "setitem b1 2 (snd (le16 (int (length (buf p)) + 2))) = Inr b2" and
    g1: "getitem b2 1 = Inr v1" and
    s3: "setitem b2 1 (push_bit 3 v1) = Inr b3" and
    s4: "setitem b3 3 (uint (crc8 (py_slice b3 0 3))) = Inr b4" and
    s5: "setitem b4 7 (fst (le16 seq_num)) = Inr b5" and
    s6: "setitem b5 8 (snd (le16 seq_num)) = Inr b6" and
    fin: "add_int16 (p\<lparr>buf := b6\<rparr>) (uint (crc16 b6)) = Inr p'"
    by blast
  have l1: "length b1 = length (buf p)" using setitem_len [OF s1] .
  have l2: "length b2 = length (buf p)" using setitem_len [OF s2] l1 by simp
  have l3: "length b3 = length (buf p)" using setitem_len [OF s3] l2 by simp
  have l4: "length b4 = length (buf p)" using setitem_len [OF s4] l3 by simp
  have l5: "length b5 = length (buf p)" using setitem_len [OF s5] l4 by simp
  have l6: "length b6 = length (buf p)" using setitem_len [OF s6] l5 by simp
  have len9: "9 \<le> length (buf p)" using setitem_upd [OF s6] l5 by simp
  obtain x1 where e1: "b1 = (buf p)[1 := x1]" using setitem_upd [OF s1] by auto
  obtain x2 where e2: "b2 = b1[2 := x2]" using setitem_upd [OF s2] by auto
  obtain x3 where e3: "b3 = b2[1 := x3]" using setitem_upd [OF s3] by auto
  have e4: "b4 = b3[3 := crc8 (take 3 b3)]"
    using setitem_upd [OF s4] l3 len9 by (simp add: py_slice_0_3)
  obtain x5 where e5: "b5 = b4[7 := x5]" using setitem_upd [OF s5] by auto
  obtain x6 where e6: "b6 = b5[8 := x6]" using setitem_upd [OF s6] by auto
  have t3: "take 3 b6 = take 3 b3"
    by (simp add: e6 e5 e4)
  have c3: "b6 ! 3 = crc8 (take 3 b6)"
    using l3 len9 unfolding t3 by (simp add: e6 e5 e4)
  have h0: "b6 ! 0 = buf p ! 0"
    by (simp add: e6 e5 e4 e3 e2 e1)
  have tl: "drop 9 b6 = drop 9 (buf p)"
    by (simp add: e6 e5 e4 e3 e2 e1 drop_update_cancel)
  have pe: "p' = p\<lparr>buf := b6 @ [word_of_int (uint (crc16 b6) AND 0xff),
                       word_of_int (drop_bit 8 (uint (crc16 b6)) AND 0xff)]\<rparr>"
    using fin unfolding add_int16_eq by simp
  have fe: "buf p' = b6 @ [word_of_int (uint (crc16 b6) AND 0xff),
                       word_of_int (drop_bit 8 (uint (crc16 b6)) AND 0xff)]"
    unfolding pe by simp
  show ?thesis
    apply (rule exI [of _ b6])
    using l6 len9 c3 h0 tl fe apply simp
    done
qed

lemma setitem_ok:
  "0 \<le> i \<Longrightarrow> nat i < length b \<Longrightarrow> 0 \<le> v \<Longrightarrow> v < 256 \<Longrightarrow>
   setitem b i v = Inr (b[nat i := word_of_int v])"
  by (auto simp: setitem_def norm_index_def Let_def)

lemma getitem_ok:
  "0 \<le> i \<Longrightarrow> nat i < length b \<Longrightarrow> getitem b i = Inr (uint (b ! nat i))"
  by (auto simp: getitem_def norm_index_def Let_def)

lemma uint_byte_of_int: "uint (word_of_int v :: byte) = v mod 256"
  by (simp add: uint_word_of_int take_bit_eq_mod)

lemma le16_range:
  "0 \<le> fst (le16 v) \<and> fst (le16 v) < 256 \<and> 0 \<le> snd (le16 v) \<and> snd (le16 v) < 256"
  by (simp add: le16_def and_ff_mod)

lemma fixup_not_sync:
  "buf p \<noteq> [] \<Longrightarrow> uint (buf p ! 0) \<noteq> START_OF_PACKET \<Longrightarrow> fixup crc8 crc16 p s = Inr p"
  by (simp add: fixup_def get_buffer_def getitem_ok bind_err_def)

lemma fixup_empty: "buf p = [] \<Longrightarrow> fixup crc8 crc16 p s = Inl IndexError"
  by (simp add: fixup_def get_buffer_def getitem_def norm_index_def bind_err_def)

lemma fixup_shift:
  assumes len: "9 \<le> length (buf p)" and sync: "uint (buf p ! 0) = START_OF_PACKET"
  shows "fixup crc8 crc16 p s =
     (if (int (length (buf p)) + 2) mod 256 < 32
      then bind_err (setitem ((buf p)[1 := word_of_int (fst (le16 (int (length (buf p)) + 2))),
                      2 := word_of_int (snd (le16 (int (length (buf p)) + 2))),
                      1 := word_of_int (push_bit 3 ((int (length (buf p)) + 2) mod 256))])
                3 (uint (crc8 (py_slice ((buf p)[1 := word_of_int (fst (le16 (int (length (buf p)) + 2))),
                      2 := word_of_int (snd (le16 (int (length (buf p)) + 2))),
                      1 := word_of_int (push_bit 3 ((int (length (buf p)) + 2) mod 256))]) 0 3)))) (\<lambda>b4.
         bind_err (setitem b4 7 (fst (le16 s))) (\<lambda>b5.
         bind_err (setitem b5 8 (snd (le16 s))) (\<lambda>b6.
         add_int16 (p\<lparr>buf := b6\<rparr>) (uint (crc16 b6)))))
      else Inl ValueError)"
proof -
  let ?n = "int (length (buf p)) + 2"
  let ?b1 = "(buf p)[1 := word_of_int (fst (le16 ?n))]"
  let ?b2 = "?b1[2 := word_of_int (snd (le16 ?n))]"
  have ne: "buf p \<noteq> []" using len by auto
  have g0: "getitem (buf p) 0 = Inr START_OF_PACKET"
    using ne sync by (simp add: getitem_ok)
  have s1: "setitem (buf p) 1 (fst (le16 ?n)) = Inr ?b1"
    using len le16_range [of ?n] by (simp add: setitem_ok)
  have s2: "setitem ?b1 2 (snd (le16 ?n)) = Inr ?b2"
    using len le16_range [of ?n] by (simp add: setitem_ok)
  have g1: "getitem ?b2 1 = Inr (?n mod 256)"
    using len by (simp add: getitem_ok le16_def and_ff_mod uint_byte_of_int)
  have nn: "0 \<le> ?n mod 256" by simp
  have s3: "setitem ?b2 1 (push_bit 3 (?n mod 256)) =
      (if ?n mod 256 < 32 then Inr (?b2[1 := word_of_int (push_bit 3 (?n mod 256))])
       else Inl ValueError)"
    using len nn by (simp add: setitem_def norm_index_def push_bit_eq_mult)
  show ?thesis
  proof (cases "?n mod 256 < 32")
    case True
    with s3 have s3': "setitem ?b2 1 (push_bit 3 (?n mod 256)) =
        Inr (?b2[1 := word_of_int (push_bit 3 (?n mod 256))])" by simp
    show ?thesis
      unfolding fixup_def get_buffer_def
      by (simp only: g0 s1 s2 g1 s3' bind_err_def sum.case if_True True simp_thms)
  next
    case False
    with s3 have s3': "setitem ?b2 1 (push_bit 3 (?n mod 256)) = Inl ValueError" by simp
    show ?thesis
      unfolding fixup_def get_buffer_def
      by (simp only: g0 s1 s2 g1 s3' bind_err_def sum.case if_True if_False False simp_thms)
  qed
qed

lemma fixup_overflow:
  "9 \<le> length (buf p) \<Longrightarrow> uint (buf p ! 0) = START_OF_PACKET \<Longrightarrow>
   32 \<le> (int (length (buf p)) + 2) mod 256 \<Longrightarrow> fixup crc8 crc16 p s = Inl ValueError"
  by (simp add: fixup_shift)

lemma fixup_small:
  assumes len: "9 \<le> length (buf p)" and sync: "uint (buf p ! 0) = START_OF_PACKET"
    and small: "(int (length (buf p)) + 2) mod 256 < 32"
  shows "\<exists>p'. fixup crc8 crc16 p s = Inr p'"
proof -
  have "\<exists>p'. bind_err (setitem b 3 (uint (crc8 (py_slice b 0 3)))) (\<lambda>b4.
         bind_err (setitem b4 7 (fst (le16 s))) (\<lambda>b5.
         bind_err (setitem b5 8 (snd (le16 s))) (\<lambda>b6.
         add_int16 (p\<lparr>buf := b6\<rparr>) (uint (crc16 b6))))) = Inr p'"
    if "length b = length (buf p)" for b
  proof -
    have c: "0 \<le> uint (crc8 (py_slice b 0 3)) \<and> uint (crc8 (py_slice b 0 3)) < 256"
      using uint_bounded [of "crc8 (py_slice b 0 3)"] by simp
    show ?thesis
      using that len c le16_range [of s]
      by (simp add: setitem_ok bind_err_def add_int16_eq)
  qed
  then show ?thesis
    using small by (simp add: fixup_shift [OF len sync])
qed

subsection \<open>Packet: checksums and payload\<close>

lemma get_data_append2:
  "9 \<le> length B \<Longrightarrow> get_data (p\<lparr>buf := B @ [x, y]\<rparr>) = drop 9 B"
  by (simp add: get_data_def py_slice_def slice_bound_def norm_index_def Let_def)

text \<open>
  C2: when \<open>fixup\<close> completes on a packet whose first byte is the sync marker 0xCC, byte 3
  of the resulting buffer is \<open>crc8\<close> of its first three bytes, the buffer is two bytes
  longer, and its last two bytes, read as a little-endian 16-bit value, are \<open>crc16\<close> of all
  the bytes before them.
\<close>
theorem fixup_checksums:
  assumes ok: "fixup crc8 crc16 p seq_num = Inr p'"
    and ne: "buf p \<noteq> []" and sync: "uint (buf p ! 0) = START_OF_PACKET"
  shows "buf p' ! 3 = crc8 (take 3 (buf p'))
       \<and> length (buf p') = length (buf p) + 2
       \<and> uint (buf p' ! (length (buf p') - 2)) + 256 * uint (buf p' ! (length (buf p') - 1))
           = uint (crc16 (take (length (buf p') - 2) (buf p')))"
proof -
  from fixup_sync [OF ok ne sync] obtain B where
    l: "length B = length (buf p)" and l9: "9 \<le> length B" and
    c: "B ! 3 = crc8 (take 3 B)" and
    e: "buf p' = B @ [word_of_int (uint (crc16 B) AND 0xff),
                      word_of_int (drop_bit 8 (uint (crc16 B)) AND 0xff)]"
    by blast
  have a: "buf p' ! 3 = crc8 (take 3 (buf p'))"
    using l9 c by (simp add: e nth_append)
  have b: "length (buf p') = length (buf p) + 2"
    by (simp add: e l)
  have t: "take (length (buf p') - 2) (buf p') = B"
    by (simp add: e)
  have n2: "buf p' ! (length (buf p') - 2) = word_of_int (uint (crc16 B) AND 0xff)"
    by (simp add: e nth_append)
  have n1: "buf p' ! (length (buf p') - 1) = word_of_int (drop_bit 8 (uint (crc16 B)) AND 0xff)"
    by (simp add: e nth_append)
  show ?thesis
    unfolding t n2 n1 using a b le16_uint16 [of "crc16 B"] by simp
qed

lemma fixup_get_data:
  assumes t: "0 \<le> pkt_type" "pkt_type < 256" and n: "length vs \<le> 20"
  shows "bind_err (Packet_init (CmdInt cmd) pkt_type) (\<lambda>p0.
         bind_err (add_bytes p0 vs) (\<lambda>p1.
         bind_err (fixup crc8 crc16 p1 s) (\<lambda>p2. Inr (get_data p2)))) =
         Inr (map (\<lambda>v. word_of_int (v AND 0xff)) vs)"
proof -
  let ?h = "[0xcc, 0, 0, 0, word_of_int pkt_type, word_of_int (cmd AND 0xff),
             word_of_int (drop_bit 8 cmd AND 0xff), 0, 0] :: bytes"
  let ?pl = "map (\<lambda>v. word_of_int (v AND 0xff)) vs :: bytes"
  let ?p1 = "\<lparr>buf = ?h @ ?pl\<rparr>"
  have l: "9 \<le> length (buf ?p1)" by simp
  have ne: "buf ?p1 \<noteq> []" by simp
  have sy: "uint (buf ?p1 ! 0) = START_OF_PACKET" by (simp add: START_OF_PACKET_def)
  have sm: "(int (length (buf ?p1)) + 2) mod 256 < 32" using n by simp
  from fixup_small [OF l sy sm] obtain p2 where f: "fixup crc8 crc16 ?p1 s = Inr p2" by blast
  from fixup_sync [OF f ne sy] obtain B x y where
    lB: "9 \<le> length B" and d: "drop 9 B = drop 9 (buf ?p1)" and e: "buf p2 = B @ [x, y]"
    by blast
  have "p2 = p2\<lparr>buf := B @ [x, y]\<rparr>" using e by simp
  then have "get_data p2 = drop 9 B" using get_data_append2 [OF lB, where p = p2 and x = x and y = y] by simp
  then have g: "get_data p2 = ?pl" using d by simp
  have pi: "Packet_init (CmdInt cmd) pkt_type = Inr \<lparr>buf = ?h\<rparr>"
    by (rule Packet_init_int [OF t])
  have ab: "add_bytes \<lparr>buf = ?h\<rparr> vs = Inr ?p1"
    by (simp add: add_bytes_eq)
  show ?thesis
    by (simp only: pi ab f g bind_err_def sum.case)
qed

text \<open>
  C1 (round trip of \<open>fixup\<close> and \<open>get_data\<close>), at a payload of 21 bytes. The packet built
  by \<open>Packet(80)\<close> and 21 calls of \<open>add_byte(0)\<close> has 30 bytes; \<open>fixup\<close> writes the low byte
  32 of the length 32 to \<open>buf[1]\<close> and then assigns \<open>buf[1] << 3 = 256\<close> to the same byte of
  the bytearray, which raises ValueError: no payload is returned. The lemma
  \<open>fixup_get_data\<close> above shows the round trip for payloads of up to 20 bytes.
\<close>
theorem fixup_payload_21:
  "bind_err (Packet_init (CmdInt 80) 0x68) (\<lambda>p0.
   bind_err (add_bytes p0 (replicate 21 0)) (\<lambda>p1.
   bind_err (fixup crc8 crc16 p1 0) (\<lambda>p2. Inr (get_data p2)))) = Inl ValueError"
proof -
  let ?p1 = "\<lparr>buf = [0xcc, 0, 0, 0, 0x68, 80, 0, 0, 0] @ replicate 21 0\<rparr> :: packet"
  have "fixup crc8 crc16 ?p1 0 = Inl ValueError"
    by (rule fixup_overflow) (simp_all add: START_OF_PACKET_def)
  then show ?thesis
    by (simp add: bind_err_def add_bytes_eq START_OF_PACKET_def)
qed

text \<open>
  C2 at the take-off command with sequence number 0x1e4, for the stand-in checksums.
\<close>
theorem fixup_checksums_witness:
  "fixup xor8 sum16 \<lparr>buf = [0xcc, 0, 0, 0, 0x68, 0x54, 0, 0, 0]\<rparr> 0x1e4
     = Inr \<lparr>buf = [0xcc, 0x58, 0, 0xce, 0x68, 0x54, 0, 0xe4, 1, 0x45, 0x16]\<rparr>
   \<and> [0xcc, 0x58, 0, 0xce, 0x68, 0x54, 0, 0xe4, 1, 0x45, 0x16 :: byte] ! 3
       = xor8 (take 3 [0xcc, 0x58, 0, 0xce, 0x68, 0x54, 0, 0xe4, 1, 0x45, 0x16])
   \<and> uint (0x45 :: byte) + 256 * uint (0x16 :: byte)
       = uint (sum16 (take 9 [0xcc, 0x58, 0, 0xce, 0x68, 0x54, 0, 0xe4, 1, 0x45, 0x16]))"
proof -
  let ?p = "\<lparr>buf = [0xcc, 0, 0, 0, 0x68, 0x54, 0, 0, 0]\<rparr> :: packet"
  let ?p' = "\<lparr>buf = [0xcc, 0x58, 0, 0xce, 0x68, 0x54, 0, 0xe4, 1, 0x45, 0x16]\<rparr> :: packet"
  have h1: "fixup xor8 sum16 ?p 0x1e4 = Inr ?p'"
    by code_simp
  have h2: "buf ?p \<noteq> []" by simp
  have h3: "uint (buf ?p ! 0) = START_OF_PACKET" by (simp add: START_OF_PACKET_def)
  show ?thesis
    using fixup_checksums [OF h1 h2 h3] h1 by simp
qed

text \<open>
  C3, as amended: \<open>add_byte\<close>, \<open>add_int16\<close> and \<open>add_time\<close> complete on every buffer and for
  every integer argument; \<open>fixup\<close> completes on every non-empty buffer that does not start
  with the sync marker, and on every buffer of at least 9 bytes whose length plus 2 has a
  low byte below 32.
\<close>
theorem packet_building_completes:
  "(\<exists>p'. add_byte p v = Inr p') \<and> (\<exists>p'. add_int16 p v = Inr p')
   \<and> (\<exists>p'. add_time p t = Inr p')
   \<and> (buf p \<noteq> [] \<and>
        (uint (buf p ! 0) = START_OF_PACKET \<longrightarrow>
           9 \<le> length (buf p) \<and> (int (length (buf p)) + 2) mod 256 < 32)
       \<longrightarrow> (\<exists>p'. fixup crc8 crc16 p s = Inr p'))"
proof (intro conjI impI)
  show "\<exists>p'. add_byte p v = Inr p'" by (simp add: add_byte_eq)
  show "\<exists>p'. add_int16 p v = Inr p'" by (simp add: add_int16_eq)
  show "\<exists>p'. add_time p t = Inr p'" by (simp add: add_time_eq)
next
  assume a: "buf p \<noteq> [] \<and>
        (uint (buf p ! 0) = START_OF_PACKET \<longrightarrow>
           9 \<le> length (buf p) \<and> (int (length (buf p)) + 2) mod 256 < 32)"
  show "\<exists>p'. fixup crc8 crc16 p s = Inr p'"
  proof (cases "uint (buf p ! 0) = START_OF_PACKET")
    case True
    with a show ?thesis by (simp add: fixup_small)
  next
    case False
    with a show ?thesis by (simp add: fixup_not_sync)
  qed
qed

text \<open>C3 as amended, at the 9-byte header of the take-off command.\<close>
theorem packet_building_completes_witness:
  "buf \<lparr>buf = [0xcc, 0, 0, 0, 0x68, 0x54, 0, 0, 0]\<rparr> \<noteq> []
   \<and> uint (buf \<lparr>buf = [0xcc, 0, 0, 0, 0x68, 0x54, 0, 0, 0]\<rparr> ! 0) = START_OF_PACKET
   \<and> 9 \<le> length (buf \<lparr>buf = [0xcc, 0, 0, 0, 0x68, 0x54, 0, 0, 0]\<rparr>)
   \<and> (int (length (buf \<lparr>buf = [0xcc, 0, 0, 0, 0x68, 0x54, 0, 0, 0]\<rparr>)) + 2) mod 256 < 32
   \<and> (\<exists>p'. fixup xor8 sum16 \<lparr>buf = [0xcc, 0, 0, 0, 0x68, 0x54, 0, 0, 0]\<rparr> 0x1e4 = Inr p')
   \<and> (\<exists>p'. add_byte \<lparr>buf = [0xcc, 0, 0, 0, 0x68, 0x54, 0, 0, 0]\<rparr> 300 = Inr p')"
  using packet_building_completes
    [of "\<lparr>buf = [0xcc, 0, 0, 0, 0x68, 0x54, 0, 0, 0]\<rparr>" 300 _ xor8 sum16 "0x1e4"]
  by (simp add: START_OF_PACKET_def)

text \<open>
  C3 as stated fails: \<open>fixup\<close> raises IndexError on the empty buffer and on the one-byte
  buffer holding the sync marker, and ValueError on a 30-byte packet, where the shifted low
  length byte is 256.
\<close>
theorem fixup_raises:
  "fixup xor8 sum16 \<lparr>buf = []\<rparr> 0 = Inl IndexError
   \<and> fixup xor8 sum16 \<lparr>buf = [0xcc]\<rparr> 0 = Inl IndexError
   \<and> fixup xor8 sum16 \<lparr>buf = 0xcc # replicate 29 0\<rparr> 0 = Inl ValueError"
  by code_simp

subsection \<open>LogData: the list of unknown ids\<close>

lemma reported_refl: "reported ident w w"
  by (simp add: reported_def)

lemma reported_trans:
  assumes "reported ident w w1" and "reported ident w1 w2"
  shows "reported ident w w2"
proof -
  have s: "set (unknowns w) \<subseteq> set (unknowns w2)"
    using assms unfolding reported_def by blast
  show ?thesis
  proof (cases "ident \<in> set (unknowns w)")
    case True
    then have "ident \<in> set (unknowns w1)" using assms(1) unfolding reported_def by blast
    with True assms s show ?thesis unfolding reported_def by auto
  next
    case False
    show ?thesis
    proof (cases "reports ident w < reports ident w1")
      case True
      then have "ident \<in> set (unknowns w1)" using assms(1) unfolding reported_def by blast
      with False True assms s show ?thesis unfolding reported_def by auto
    next
      case False
      with assms s show ?thesis unfolding reported_def by (auto split: if_splits)
    qed
  qed
qed

lemma put_obj_fields [simp]:
  "unknowns (put_obj w self d) = unknowns w" "infos (put_obj w self d) = infos w"
  "length (objects (put_obj w self d)) = length (objects w)"
  by (simp_all add: put_obj_def)

lemma reports_put_obj [simp]: "reports ident (put_obj w self d) = reports ident w"
  by (simp add: reports_def)

lemma reported_put_obj: "reported ident w (put_obj w self d)"
  by (simp add: reported_def)

lemma reported_enter: "reported ident w (enter w self)"
  by (simp add: enter_def reported_put_obj)

lemma reported_dispatch:
  "dispatch w self i len payload = (w', r) \<Longrightarrow> reported ident w w'"
  by (auto simp: dispatch_def reported_def reports_def split: if_splits prod.splits)


lemma reported_scan_step:
  assumes IH: "\<And>w self data pos y. f w self data pos = Some y \<Longrightarrow> reported ident w (fst y)"
    and eq: "(if pos < int (length data) - 2 then
        (case read_record data pos of
           Inl e \<Rightarrow> Some (w, Inl e)
         | Inr (len, i, payload) \<Rightarrow>
             (case dispatch w self i len payload of
                (w', Some e) \<Rightarrow> Some (w', Inl e)
              | (w', None) \<Rightarrow> f w' self data (pos + len)))
      else Some (w, Inr pos)) = Some y"
  shows "reported ident w (fst y)"
proof (cases "pos < int (length data) - 2")
  case False
  with eq show ?thesis by (auto simp: reported_refl)
next
  case True
  note lt = this
  show ?thesis
  proof (cases "read_record data pos")
    case (Inl e)
    with eq lt show ?thesis by (auto simp: reported_refl)
  next
    case (Inr t)
    obtain len i payload where t: "t = (len, i, payload)" by (cases t) auto
    obtain w1 r1 where d: "dispatch w self i len payload = (w1, r1)"
      by (cases "dispatch w self i len payload") auto
    have r1: "reported ident w w1" using reported_dispatch [OF d] .
    show ?thesis
    proof (cases r1)
      case None
      with eq lt Inr t d have "f w1 self data (pos + len) = Some y" by simp
      from IH [OF this] have "reported ident w1 (fst y)" .
      with r1 show ?thesis by (rule reported_trans)
    next
      case (Some e)
      with eq lt Inr t d have "y = (w1, Inl e)" by simp
      with r1 show ?thesis by simp
    qed
  qed
qed

lemma reported_scan:
  assumes "scan w self data pos = Some (w', r)"
  shows "reported ident w w'"
proof -
  have "reported ident w (fst (w', r))"
    by (rule scan.raw_induct [where P = "\<lambda>w self data pos y. reported ident w (fst y)",
          OF _ assms]) (rule reported_scan_step)
  then show ?thesis by simp
qed

lemma reported_update:
  "update w self data = Some (w', r) \<Longrightarrow> reported ident w w'"
proof -
  assume u: "update w self data = Some (w', r)"
  then obtain x where s: "scan (enter w self) self data 0 = Some (w', x)"
    by (auto simp: update_def split: option.splits sum.splits if_splits)
  from reported_enter reported_scan [OF s] show ?thesis by (rule reported_trans)
qed

lemma reported_init:
  "LogData_init w d = Some (w', r) \<Longrightarrow> reported ident w w'"
proof -
  assume i: "LogData_init w d = Some (w', r)"
  let ?w1 = "w\<lparr>objects := objects w @
                 [\<lparr>count = 0, mvo = LogNewMvoFeedback_init, imu = LogImuAtti_init\<rparr>]\<rparr>"
  have a: "reported ident w ?w1" by (simp add: reported_def reports_def)
  show ?thesis
  proof (cases "\<exists>bs. d = Some bs \<and> bs \<noteq> []")
    case False
    with i have "w' = ?w1" by (auto simp: LogData_init_def Let_def split: option.splits if_splits)
    with a show ?thesis by simp
  next
    case True
    then obtain bs where d: "d = Some bs" "bs \<noteq> []" by blast
    with i obtain r' where "update ?w1 (length (objects w)) bs = Some (w', r')"
      by (auto simp: LogData_init_def Let_def split: option.splits if_splits)
    from a reported_update [OF this] show ?thesis by (rule reported_trans)
  qed
qed

lemma reported_run: "run w cs = Some w' \<Longrightarrow> reported ident w w'"
proof (induction w cs rule: run.induct)
  case (1 w)
  then show ?case by (simp add: reported_refl)
next
  case (2 w d cs)
  from 2(2) obtain w1 r where i: "LogData_init w d = Some (w1, r)" and r: "run w1 cs = Some w'"
    by (auto split: option.splits)
  from reported_init [OF i] 2(1) [OF i refl r] show ?case by (rule reported_trans)
next
  case (3 w self d cs)
  show ?case
  proof (cases "self < length (objects w)")
    case True
    with 3(3) obtain w1 r where u: "update w self d = Some (w1, r)" and r: "run w1 cs = Some w'"
      by (auto split: option.splits)
    from reported_update [OF u] 3(1) [OF True u refl r] show ?thesis by (rule reported_trans)
  next
    case False
    with 3(2) [OF False] 3(3) show ?thesis by simp
  qed
qed

subsection \<open>LogData: the end of the loop\<close>

lemma scan_exit_step:
  assumes IH: "\<And>w self data pos y. f w self data pos = Some y \<Longrightarrow>
                 (\<forall>w' p. y = (w', Inr p) \<longrightarrow> int (length data) - 2 \<le> p)"
    and eq: "(if pos < int (length data) - 2 then
        (case read_record data pos of
           Inl e \<Rightarrow> Some (w, Inl e)
         | Inr (len, i, payload) \<Rightarrow>
             (case dispatch w self i len payload of
                (w', Some e) \<Rightarrow> Some (w', Inl e)
              | (w', None) \<Rightarrow> f w' self data (pos + len)))
      else Some (w, Inr pos)) = Some y"
  shows "\<forall>w' p. y = (w', Inr p) \<longrightarrow> int (length data) - 2 \<le> p"
proof (cases "pos < int (length data) - 2")
  case False
  with eq show ?thesis by auto
next
  case True
  note lt = this
  show ?thesis
  proof (cases "read_record data pos")
    case (Inl e)
    with eq lt show ?thesis by auto
  next
    case (Inr t)
    obtain len i payload where t: "t = (len, i, payload)" by (cases t) auto
    obtain w1 r1 where d: "dispatch w self i len payload = (w1, r1)"
      by (cases "dispatch w self i len payload") auto
    show ?thesis
    proof (cases r1)
      case None
      with eq lt Inr t d have "f w1 self data (pos + len) = Some y" by simp
      from IH [OF this] show ?thesis .
    next
      case (Some e)
      with eq lt Inr t d have "y = (w1, Inl e)" by simp
      then show ?thesis by simp
    qed
  qed
qed

lemma scan_exit:
  assumes "scan w self data pos = Some (w', Inr p)"
  shows "int (length data) - 2 \<le> p"
proof -
  have "\<forall>v q. (w', Inr p :: py_error + int) = (v, Inr q) \<longrightarrow> int (length data) - 2 \<le> q"
    by (rule scan.raw_induct [where P = "\<lambda>w self data pos y.
          \<forall>w' p. y = (w', Inr p) \<longrightarrow> int (length data) - 2 \<le> p", OF _ assms])
       (rule scan_exit_step)
  then show ?thesis by simp
qed

text \<open>
  C6: when the loop of \<open>update\<close> ends at position \<open>p\<close>, the call raises the corrupted-data
  exception if and only if \<open>p\<close> differs from \<open>len(data) - 2\<close>, and returns normally when the
  two are equal; the last two bytes are not looked at. The loop ends only at positions
  from \<open>len(data) - 2\<close> on.
\<close>
theorem update_final_check:
  assumes "scan (enter w self) self data 0 = Some (w', Inr p)"
  shows "update w self data =
           Some (w', if p \<noteq> int (length data) - 2
                     then Some (CorruptedData p (py_slice_from data p)) else None)
       \<and> ((\<exists>e. update w self data = Some (w', Some e)) \<longleftrightarrow> p \<noteq> int (length data) - 2)
       \<and> int (length data) - 2 \<le> p"
  using assms scan_exit [OF assms] by (simp add: update_def)






text \<open>
  C6 at the stream \<open>unk\<close>, where the loop ends at 12 = 14 - 2, and at the stream \<open>long\<close>,
  where it ends at 13.
\<close>
theorem update_final_check_witness:
  "scan (enter \<lparr>unknowns = [], objects = [fresh], infos = []\<rparr> 0) 0 unk 0 =
     Some (\<lparr>unknowns = [7], objects = [fresh\<lparr>count := 1\<rparr>], infos = [(0, 7, 0)]\<rparr>, Inr 12)
   \<and> update \<lparr>unknowns = [], objects = [fresh], infos = []\<rparr> 0 unk =
     Some (\<lparr>unknowns = [7], objects = [fresh\<lparr>count := 1\<rparr>], infos = [(0, 7, 0)]\<rparr>, None)
   \<and> scan (enter \<lparr>unknowns = [], objects = [fresh], infos = []\<rparr> 0) 0 long 0 =
     Some (\<lparr>unknowns = [7], objects = [fresh\<lparr>count := 1\<rparr>], infos = [(0, 7, 1)]\<rparr>, Inr 13)
   \<and> update \<lparr>unknowns = [], objects = [fresh], infos = []\<rparr> 0 long =
     Some (\<lparr>unknowns = [7], objects = [fresh\<lparr>count := 1\<rparr>], infos = [(0, 7, 1)]\<rparr>,
           Some (CorruptedData 13 [0x20]))"
proof -
  let ?w = "\<lparr>unknowns = [], objects = [fresh], infos = []\<rparr>"
  have a: "scan (enter ?w 0) 0 unk 0 =
     Some (\<lparr>unknowns = [7], objects = [fresh\<lparr>count := 1\<rparr>], infos = [(0, 7, 0)]\<rparr>, Inr 12)"
    by code_simp
  have b: "scan (enter ?w 0) 0 long 0 =
     Some (\<lparr>unknowns = [7], objects = [fresh\<lparr>count := 1\<rparr>], infos = [(0, 7, 1)]\<rparr>, Inr 13)"
    by code_simp
  have c: "py_slice_from long 13 = [0x20]" by code_simp
  show ?thesis
    using update_final_check [OF a] update_final_check [OF b] a b c
    by (simp add: unk_def long_def)
qed








text \<open>
  C10: \<open>unknowns\<close> belongs to the class. Once an \<open>update\<close> of some instance has logged the
  message about an id, the id is in the list, and whatever instances are created or
  updated afterwards, the id stays in the list and no further message about it is logged.
\<close>
theorem unknowns_class_level:
  assumes "update w self data = Some (w1, r)" and "reports ident w < reports ident w1"
    and "run w1 cs = Some w2"
  shows "ident \<in> set (unknowns w1) \<and> ident \<in> set (unknowns w2)
       \<and> reports ident w2 = reports ident w1"
proof -
  have a: "reported ident w w1" using assms(1) by (rule reported_update)
  have b: "reported ident w1 w2" using assms(3) by (rule reported_run)
  from a assms(2) have "ident \<in> set (unknowns w1)" by (simp add: reported_def)
  with b show ?thesis by (auto simp: reported_def)
qed

text \<open>
  C10 with two instances: instance 0 reports id 7; updates of instance 1, of a third
  instance created later, and of instance 0 log nothing more.
\<close>
theorem unknowns_class_level_witness:
  "update \<lparr>unknowns = [], objects = [fresh, fresh], infos = []\<rparr> 0 unk =
     Some (\<lparr>unknowns = [7], objects = [fresh\<lparr>count := 1\<rparr>, fresh], infos = [(0, 7, 0)]\<rparr>, None)
   \<and> reports 7 \<lparr>unknowns = [], objects = [fresh, fresh], infos = []\<rparr>
       < reports 7 \<lparr>unknowns = [7], objects = [fresh\<lparr>count := 1\<rparr>, fresh], infos = [(0, 7, 0)]\<rparr>
   \<and> run \<lparr>unknowns = [7], objects = [fresh\<lparr>count := 1\<rparr>, fresh], infos = [(0, 7, 0)]\<rparr>
        [Update 1 unk, New (Some unk), Update 2 long, Update 0 unk] =
     Some \<lparr>unknowns = [7],
           objects = [fresh\<lparr>count := 2\<rparr>, fresh\<lparr>count := 1\<rparr>, fresh\<lparr>count := 2\<rparr>],
           infos = [(0, 7, 0)]\<rparr>
   \<and> reports 7 \<lparr>unknowns = [7],
           objects = [fresh\<lparr>count := 2\<rparr>, fresh\<lparr>count := 1\<rparr>, fresh\<lparr>count := 2\<rparr>],
           infos = [(0, 7, 0)]\<rparr> = 1"
proof -
  let ?w = "\<lparr>unknowns = [], objects = [fresh, fresh], infos = []\<rparr>"
  let ?w1 = "\<lparr>unknowns = [7], objects = [fresh\<lparr>count := 1\<rparr>, fresh], infos = [(0, 7, 0)]\<rparr>"
  let ?w2 = "\<lparr>unknowns = [7],
           objects = [fresh\<lparr>count := 2\<rparr>, fresh\<lparr>count := 1\<rparr>, fresh\<lparr>count := 2\<rparr>],
           infos = [(0, 7, 0)]\<rparr>"
  have a: "update ?w 0 unk = Some (?w1, None)" by code_simp
  have b: "reports 7 ?w < reports 7 ?w1" by (simp add: reports_def)
  have c: "run ?w1 [Update 1 unk, New (Some unk), Update 2 long, Update 0 unk] = Some ?w2"
    by code_simp
  from unknowns_class_level [OF a b c] a b c show ?thesis by (simp add: reports_def)
qed

subsection \<open>FlightData\<close>

text \<open>
  C4, as amended: the example payload decodes to height 10, north_speed 5, fly_time 100,
  imu_state 1, battery_state 1, imu_calibration_state 5, battery_percentage 50, em_sky 1,
  em_open 1, fly_mode 2, throw_fly_timer 3, camera_state 7, electrical_machinery_state 1,
  front_in 1, front_out 1, temperature_height 1, and 0 in every other attribute, among
  them power_state: byte 10 is 0x11, with bits 0 and 4 set and bit 3 clear.
\<close>

theorem FlightData_status_payload:
  "FlightData status_payload =
     \<lparr>battery_low = 0, battery_lower = 0, battery_percentage = 50,
      battery_state = 1, camera_state = 7, down_visual_state = 0,
      drone_battery_left = 0, drone_fly_time_left = 0, drone_hover = 0,
      em_open = 1, em_sky = 1, em_ground = 0, east_speed = 0,
      electrical_machinery_state = 1, factory_mode = 0, fly_mode = 2,
      fly_speed = 0, fly_time = 100, front_in = 1, front_lsc = 0, front_out = 1,
      gravity_state = 0, vertical_speed = 0, height = 10,
      imu_calibration_state = 5, imu_state = 1, light_strength = 0,
      north_speed = 5, outage_recording = 0, power_state = 0, pressure_state = 0,
      smart_video_exit_mode = 0, temperature_height = 1, throw_fly_timer = 3,
      wifi_disturb = 0, wifi_strength = 0, wind_state = 0\<rparr>"
  by (simp add: FlightData_def status_payload_def byte_at_def flight_data_defaults_def int16_def)

text \<open>C4 as stated fails: the decoded power_state is 0, not 1.\<close>

theorem FlightData_status_payload_power_state:
  "\<not> (height (FlightData status_payload) = 10
         \<and> north_speed (FlightData status_payload) = 5
         \<and> fly_time (FlightData status_payload) = 100
         \<and> imu_state (FlightData status_payload) = 1
         \<and> power_state (FlightData status_payload) = 1
         \<and> imu_calibration_state (FlightData status_payload) = 5
         \<and> battery_percentage (FlightData status_payload) = 50
         \<and> em_sky (FlightData status_payload) = 1
         \<and> em_open (FlightData status_payload) = 1
         \<and> fly_mode (FlightData status_payload) = 2
         \<and> throw_fly_timer (FlightData status_payload) = 3
         \<and> camera_state (FlightData status_payload) = 7
         \<and> electrical_machinery_state (FlightData status_payload) = 1
         \<and> front_in (FlightData status_payload) = 1
         \<and> front_out (FlightData status_payload) = 1
         \<and> temperature_height (FlightData status_payload) = 1)"
  by (simp add: FlightData_def status_payload_def byte_at_def flight_data_defaults_def)

text \<open>
  C5: for every payload shorter than 24 bytes the decoder returns the object with every
  attribute 0; the constructor has no statement that can raise.
\<close>

theorem FlightData_short:
  "length data < 24 \<Longrightarrow>
   FlightData data =
     \<lparr>battery_low = 0, battery_lower = 0, battery_percentage = 0,
      battery_state = 0, camera_state = 0, down_visual_state = 0,
      drone_battery_left = 0, drone_fly_time_left = 0, drone_hover = 0,
      em_open = 0, em_sky = 0, em_ground = 0, east_speed = 0,
      electrical_machinery_state = 0, factory_mode = 0, fly_mode = 0,
      fly_speed = 0, fly_time = 0, front_in = 0, front_lsc = 0, front_out = 0,
      gravity_state = 0, vertical_speed = 0, height = 0,
      imu_calibration_state = 0, imu_state = 0, light_strength = 0,
      north_speed = 0, outage_recording = 0, power_state = 0, pressure_state = 0,
      smart_video_exit_mode = 0, temperature_height = 0, throw_fly_timer = 0,
      wifi_disturb = 0, wifi_strength = 0, wind_state = 0\<rparr>"
  by (simp add: FlightData_def flight_data_defaults_def)

text \<open>C5 at the empty payload and at a payload of 23 bytes.\<close>

theorem FlightData_short_witness:
  "length ([] :: bytes) < 24
   \<and> FlightData [] =
     \<lparr>battery_low = 0, battery_lower = 0, battery_percentage = 0,
      battery_state = 0, camera_state = 0, down_visual_state = 0,
      drone_battery_left = 0, drone_fly_time_left = 0, drone_hover = 0,
      em_open = 0, em_sky = 0, em_ground = 0, east_speed = 0,
      electrical_machinery_state = 0, factory_mode = 0, fly_mode = 0,
      fly_speed = 0, fly_time = 0, front_in = 0, front_lsc = 0, front_out = 0,
      gravity_state = 0, vertical_speed = 0, height = 0,
      imu_calibration_state = 0, imu_state = 0, light_strength = 0,
      north_speed = 0, outage_recording = 0, power_state = 0, pressure_state = 0,
      smart_video_exit_mode = 0, temperature_height = 0, throw_fly_timer = 0,
      wifi_disturb = 0, wifi_strength = 0, wind_state = 0\<rparr>
   \<and> length (replicate 23 (0xff :: byte)) < 24
   \<and> FlightData (replicate 23 0xff) =
     \<lparr>battery_low = 0, battery_lower = 0, battery_percentage = 0,
      battery_state = 0, camera_state = 0, down_visual_state = 0,
      drone_battery_left = 0, drone_fly_time_left = 0, drone_hover = 0,
      em_open = 0, em_sky = 0, em_ground = 0, east_speed = 0,
      electrical_machinery_state = 0, factory_mode = 0, fly_mode = 0,
      fly_speed = 0, fly_time = 0, front_in = 0, front_lsc = 0, front_out = 0,
      gravity_state = 0, vertical_speed = 0, height = 0,
      imu_calibration_state = 0, imu_state = 0, light_strength = 0,
      north_speed = 0, outage_recording = 0, power_state = 0, pressure_state = 0,
      smart_video_exit_mode = 0, temperature_height = 0, throw_fly_timer = 0,
      wifi_disturb = 0, wifi_strength = 0, wind_state = 0\<rparr>"
  using FlightData_short [of "[]"] FlightData_short [of "replicate 23 0xff"] by simp

end
